theory Spec2Isabelle
  imports Complex_Main "HOL-Library.Word" "HOL-Library.Sublist"
begin

section \<open>Python strings\<close>

text \<open>
  A Python \<open>str\<close> is a sequence of Unicode code points; it is modelled as a list of
  natural numbers, so that \<open>len\<close>, slicing and comparison count code points as the
  source does.  \<open>py_str\<close> reads an ASCII literal.
\<close>

type_synonym str = "nat list"

definition py_str :: "string \<Rightarrow> str" where
  "py_str s = map of_char s"

text \<open>
  \<open>str.strip()\<close> and \<open>str.lstrip()\<close> without argument remove the characters for
  which \<open>str.isspace\<close> holds: U+0009..U+000D, U+001C..U+0020, U+0085, U+00A0, U+1680,
  U+2000..U+200A, U+2028, U+2029, U+202F, U+205F and U+3000.
\<close>

definition isspace :: "nat \<Rightarrow> bool" where
  "isspace c =
     ((9 \<le> c \<and> c \<le> 13) \<or> (28 \<le> c \<and> c \<le> 32) \<or> c = 133 \<or> c = 160 \<or> c = 5760 \<or>
      (8192 \<le> c \<and> c \<le> 8202) \<or> c = 8232 \<or> c = 8233 \<or> c = 8239 \<or> c = 8287 \<or>
      c = 12288)"

definition lstrip :: "str \<Rightarrow> str" where
  "lstrip s = dropWhile isspace s"

definition rstrip :: "str \<Rightarrow> str" where
  "rstrip s = rev (dropWhile isspace (rev s))"

definition strip :: "str \<Rightarrow> str" where
  "strip s = rstrip (lstrip s)"

text \<open>\<open>s.startswith(p)\<close>.\<close>

definition startswith :: "str \<Rightarrow> str \<Rightarrow> bool" where
  "startswith s p = (take (length p) s = p)"

text \<open>
  The slices \<open>s[n:]\<close>, \<open>s[:n]\<close> and \<open>s[-n:]\<close> for \<open>n \<ge> 0\<close>.  Python clips a slice
  to the string, and \<open>s[-0:]\<close> is \<open>s[0:]\<close>, the whole string.
\<close>

definition slice_from :: "str \<Rightarrow> nat \<Rightarrow> str" where
  "slice_from s n = drop n s"

definition slice_to :: "str \<Rightarrow> nat \<Rightarrow> str" where
  "slice_to s n = take n s"

definition slice_last :: "str \<Rightarrow> nat \<Rightarrow> str" where
  "slice_last s n = (if n = 0 then s else drop (length s - n) s)"

text \<open>\<open>text or ""\<close>, for a value that is \<open>None\<close> or a string.\<close>

definition or_empty :: "str option \<Rightarrow> str" where
  "or_empty text = (case text of None \<Rightarrow> [] | Some t \<Rightarrow> t)"

text \<open>
  \<open>s.encode("utf-8")\<close> raises \<open>UnicodeEncodeError\<close> exactly when \<open>s\<close> holds a
  surrogate code point, U+D800..U+DFFF.
\<close>

definition is_surrogate :: "nat \<Rightarrow> bool" where
  "is_surrogate c = (55296 \<le> c \<and> c \<le> 57343)"

definition utf8_encodable :: "str \<Rightarrow> bool" where
  "utf8_encodable s = list_all (\<lambda>c. \<not> is_surrogate c) s"

section \<open>Python floats\<close>

text \<open>
  A Python \<open>float\<close> is an IEEE 754 binary64 number; a finite one is modelled by the
  real number it denotes.  The difference of two floats is their exact difference
  rounded to the nearest binary64 number, a tie going to the one with the even
  significand.  \<open>ulp_exponent x\<close> is the exponent of the spacing of the binary64
  numbers around \<open>x\<close>: 52 below the exponent of \<open>x\<close>, and \<open>-1074\<close> for the
  subnormal numbers.  Overflow to infinity is not modelled: it leaves the sign of a
  difference and its comparison with 8.0 as they are here.
\<close>

definition round_half_even :: "real \<Rightarrow> int" where
  "round_half_even y =
     (let f = \<lfloor>y\<rfloor> in
      if y - of_int f < 1 / 2 then f
      else if 1 / 2 < y - of_int f then f + 1
      else if even f then f
      else f + 1)"

definition ulp_exponent :: "real \<Rightarrow> int" where
  "ulp_exponent x = max \<lfloor>log 2 \<bar>x\<bar>\<rfloor> (- 1022) - 52"

definition round_double :: "real \<Rightarrow> real" where
  "round_double x =
     (if x = 0 then 0
      else of_int (round_half_even (x / 2 powr of_int (ulp_exponent x))) *
           2 powr of_int (ulp_exponent x))"

text \<open>\<open>a - b\<close> on floats.\<close>

definition float_sub :: "real \<Rightarrow> real \<Rightarrow> real" where
  "float_sub a b = round_double (a - b)"

section \<open>The command-line transcriber (elevenlabs\_realtime.py)\<close>

type_synonym byte = "8 word"

datatype queue_exc = Full | Empty

text \<open>
  \<open>queue.Queue(maxsize)\<close>: a FIFO of byte strings, oldest first; \<open>maxsize \<le> 0\<close> means
  unbounded.
\<close>

record audio_queue =
  maxsize :: int
  q_items :: "byte list list"

definition put_nowait :: "audio_queue \<Rightarrow> byte list \<Rightarrow> queue_exc + audio_queue" where
  "put_nowait q x =
     (if 0 < maxsize q \<and> maxsize q \<le> int (length (q_items q)) then Inl Full
      else Inr (q\<lparr>q_items := q_items q @ [x]\<rparr>))"

definition get_nowait :: "audio_queue \<Rightarrow> queue_exc + (byte list \<times> audio_queue)" where
  "get_nowait q =
     (case q_items q of
        [] \<Rightarrow> Inl Empty
      | x # xs \<Rightarrow> Inr (x, q\<lparr>q_items := xs\<rparr>))"

text \<open>
  What \<open>_handle_committed_text\<close> appends to \<open>transcript.txt\<close>: the stamped text, the
  path of the segment file (given by its index) and an empty line.
\<close>

datatype transcript_line = Stamped str str | Segment_path nat | Blank

text \<open>
  The fields of \<open>ElevenLabsRealtimeTranscriber\<close> that the audio callback and the
  committed-text handler read and write, with the files they write to: \<open>stream_wav\<close> is
  the frame data written so far, \<open>segment_files\<close> the content of the
  \<open>seg_NNNNN.txt\<close> files by index,
  \<open>transcript\<close> and \<open>transcript_plain\<close> what has been appended to the two transcripts.
  Terminal output is not modelled.
\<close>

record transcriber =
  chunk_samples :: nat
  audio_queue :: audio_queue
  stream_wav :: "byte list"
  segment_index :: nat
  last_committed_text :: str
  last_committed_time :: real
  segment_files :: "nat \<rightharpoonup> str"
  transcript :: "transcript_line list"
  transcript_plain :: "str list"

text \<open>
  The object after \<open>__init__\<close>, for a chunk size and a queue capacity
  (\<open>max_audio_queue_chunks\<close>): nothing committed, nothing written.
\<close>

definition init_transcriber :: "nat \<Rightarrow> int \<Rightarrow> transcriber" where
  "init_transcriber n cap =
     \<lparr>chunk_samples = n, audio_queue = \<lparr>maxsize = cap, q_items = []\<rparr>, stream_wav = [],
      segment_index = 0, last_committed_text = [], last_committed_time = 0,
      segment_files = Map.empty, transcript = [], transcript_plain = []\<rparr>"

subsection \<open>Committed-text deduplication\<close>

text \<open>
  The loop \<open>for size in range(max_overlap, 19, -1)\<close> with its \<open>break\<close>: the result is
  the value of \<open>overlap\<close> after the loop, started at \<open>size = sz\<close>.
\<close>

function find_overlap :: "str \<Rightarrow> str \<Rightarrow> nat \<Rightarrow> nat" where
  "find_overlap previous current sz =
     (if sz \<le> 19 then 0
      else if slice_last previous sz = slice_to current sz then sz
      else find_overlap previous current (sz - 1))"
  by pat_completeness auto
termination
  by (relation "measure (\<lambda>(previous, current, sz). sz)") auto

declare find_overlap.simps [simp del]

text \<open>
  \<open>_dedupe_committed_text\<close>.  The reading of \<open>time.monotonic()\<close> is the argument
  \<open>now\<close>, a float as the remembered time is; the gap test compares their float
  difference with 8.0.  The result is the returned text and the object after the call.
\<close>

definition dedupe_committed_text :: "transcriber \<Rightarrow> real \<Rightarrow> str option \<Rightarrow> str \<times> transcriber" where
  "dedupe_committed_text self now text =
     (let current = strip (or_empty text) in
      if current = [] then ([], self)
      else
        let previous = last_committed_text self in
        if previous = [] then
          (current, self\<lparr>last_committed_text := current, last_committed_time := now\<rparr>)
        else if float_sub now (last_committed_time self) > 8 then
          (current, self\<lparr>last_committed_text := current, last_committed_time := now\<rparr>)
        else if current = previous then ([], self)
        else if startswith current previous then
          (lstrip (slice_from current (length previous)),
           self\<lparr>last_committed_text := current, last_committed_time := now\<rparr>)
        else if startswith previous current then ([], self)
        else
          let max_overlap = min (length previous) (min (length current) 220);
              overlap = find_overlap previous current max_overlap
          in (if overlap > 0 then lstrip (slice_from current overlap) else current,
              self\<lparr>last_committed_text := current, last_committed_time := now\<rparr>))"

text \<open>
  The cases of the reconciliation, in the words of its description: \<open>P\<close> is the
  remembered text of the object, \<open>C\<close> the trimmed text of the event.  The fallback
  case: \<open>C\<close> is not empty, no more than 8 seconds have passed since the remembered
  time, \<open>C\<close> differs from \<open>P\<close> and neither is a prefix of the other.  An overlap of
  length \<open>n\<close> is a string of \<open>n\<close> characters that ends \<open>P\<close> and begins \<open>C\<close>.
\<close>

definition fallback_case :: "transcriber \<Rightarrow> real \<Rightarrow> str \<Rightarrow> bool" where
  "fallback_case self now C =
     (C \<noteq> [] \<and> now - last_committed_time self \<le> 8 \<and> C \<noteq> last_committed_text self \<and>
      \<not> prefix (last_committed_text self) C \<and> \<not> prefix C (last_committed_text self))"

definition common_overlap :: "str \<Rightarrow> str \<Rightarrow> nat \<Rightarrow> bool" where
  "common_overlap P C n = (\<exists>w. length w = n \<and> suffix w P \<and> prefix w C)"

subsection \<open>Committed-text handling\<close>

text \<open>
  What can end \<open>_handle_committed_text\<close> early: \<open>write_text\<close> of the segment file
  raises \<open>UnicodeEncodeError\<close> when the text cannot be encoded as UTF-8, and \<open>print\<close>
  of the committed line can raise (the terminal cannot encode the line, or standard
  output is closed).
\<close>

datatype handler_exc = UnicodeEncodeError | Print_failed

text \<open>
  \<open>_handle_committed_text\<close>.  \<open>stamp\<close> is the value of \<open>now_stamp()\<close>, \<open>print_ok\<close>
  says whether \<open>print\<close> of the committed line succeeds.  The result is the exception
  that leaves the method, if any, and the object with its files after the call.  The
  segment file receives the text and a newline (code point 10), the plain transcript
  the text and two newlines.  \<open>write_text\<close> opens the segment file for writing, which
  creates it empty, and encodes the whole text before it writes any of it: when the
  encoding fails the file stays empty, the index is already advanced, and nothing is
  printed or appended.  When \<open>print\<close> raises, the segment file is written and nothing
  is appended to the transcripts.  Failures of the file system are not modelled.
\<close>

definition handle_committed_text ::
    "transcriber \<Rightarrow> real \<Rightarrow> str \<Rightarrow> bool \<Rightarrow> str option \<Rightarrow> handler_exc option \<times> transcriber" where
  "handle_committed_text self now stamp print_ok text0 =
     (case dedupe_committed_text self now text0 of
        (text, self1) \<Rightarrow>
          if text = [] then (None, self1)
          else
            let self2 = self1\<lparr>segment_index := segment_index self1 + 1\<rparr>;
                seg_txt = segment_index self2
            in if \<not> utf8_encodable (text @ [10]) then
                 (Some UnicodeEncodeError,
                  self2\<lparr>segment_files := (segment_files self2)(seg_txt \<mapsto> [])\<rparr>)
               else
                 let self3 = self2\<lparr>segment_files := (segment_files self2)(seg_txt \<mapsto> text @ [10])\<rparr>
                 in if \<not> print_ok then (Some Print_failed, self3)
                    else
                      let self4 = self3\<lparr>transcript := transcript self3 @ [Stamped stamp text]\<rparr>;
                          self5 = self4\<lparr>transcript := transcript self4 @ [Segment_path seg_txt]\<rparr>;
                          self6 = self5\<lparr>transcript := transcript self5 @ [Blank]\<rparr>
                      in (None,
                          self6\<lparr>transcript_plain := transcript_plain self6 @ [text @ [10, 10]]\<rparr>))"

subsection \<open>The audio callback\<close>

text \<open>
  \<open>ndarray.tobytes()\<close> of an \<open>int16\<close> array: two bytes per sample, low byte first.
\<close>

definition tobytes :: "16 word list \<Rightarrow> byte list" where
  "tobytes frame = concat (map (\<lambda>w. [ucast w, ucast (drop_bit 8 w)]) frame)"

text \<open>
  The end of \<open>_audio_callback\<close>: \<open>put_nowait\<close>, and on \<open>queue.Full\<close> one
  \<open>get_nowait\<close> and a second \<open>put_nowait\<close>.  Each \<open>except\<close> clause catches the one
  exception it names; any other would leave the callback.
\<close>

definition audio_callback_enqueue :: "audio_queue \<Rightarrow> byte list \<Rightarrow> queue_exc + audio_queue" where
  "audio_callback_enqueue q audio_bytes =
     (case put_nowait q audio_bytes of
        Inr q1 \<Rightarrow> Inr q1
      | Inl Empty \<Rightarrow> Inl Empty
      | Inl Full \<Rightarrow>
          (case (case get_nowait q of
                   Inr (oldest, q1) \<Rightarrow> Inr q1
                 | Inl Empty \<Rightarrow> Inr q
                 | Inl Full \<Rightarrow> Inl Full) of
             Inl e \<Rightarrow> Inl e
           | Inr q1 \<Rightarrow>
               (case put_nowait q1 audio_bytes of
                  Inr q2 \<Rightarrow> Inr q2
                | Inl Full \<Rightarrow> Inr q1
                | Inl Empty \<Rightarrow> Inl Empty)))"

text \<open>The enqueues of successive callbacks, oldest chunk first.\<close>

fun enqueue_all :: "audio_queue \<Rightarrow> byte list list \<Rightarrow> queue_exc + audio_queue" where
  "enqueue_all q [] = Inr q"
| "enqueue_all q (x # xs) =
     (case audio_callback_enqueue q x of
        Inl e \<Rightarrow> Inl e
      | Inr q1 \<Rightarrow> enqueue_all q1 xs)"

text \<open>
  \<open>_audio_callback\<close>.  \<open>indata\<close> is channel 0 of the block handed over by the input
  stream (\<open>indata[:, 0]\<close>, samples of type \<open>int16\<close>), \<open>frames\<close> the callback's frame
  count.  The status line printed in full display mode is not modelled.
\<close>

definition audio_callback :: "transcriber \<Rightarrow> 16 word list \<Rightarrow> nat \<Rightarrow> queue_exc + transcriber" where
  "audio_callback self indata frames =
     (let frame0 = indata;
          frame =
            (if frames \<noteq> chunk_samples self then
               let padded = replicate (chunk_samples self) 0;
                   keep = min (length frame0) (chunk_samples self)
               in take keep frame0 @ drop keep padded
             else frame0);
          audio_bytes = tobytes frame;
          self1 = self\<lparr>stream_wav := stream_wav self @ audio_bytes\<rparr>
      in case audio_callback_enqueue (audio_queue self1) audio_bytes of
           Inl e \<Rightarrow> Inl e
         | Inr q \<Rightarrow> Inr (self1\<lparr>audio_queue := q\<rparr>))"

section \<open>The web server's bridge (app.py)\<close>

subsection \<open>The browser's websocket\<close>

datatype ws_msg = Session_started str | Partial_msg str | Committed_msg str | Error_msg str

text \<open>
  The websocket towards the browser: what has been sent on it, whether the server has
  closed it, and whether the browser is still there.  \<open>send_json\<close> raises (here
  \<open>None\<close>) once the peer is gone or the socket is closed, and when the text of the
  message cannot be encoded as UTF-8 for the text frame (\<open>send_json\<close> serialises with
  \<open>ensure_ascii=False\<close>).
\<close>

record websocket =
  ws_connected :: bool
  ws_sent :: "ws_msg list"
  ws_closed :: bool

fun msg_text :: "ws_msg \<Rightarrow> str" where
  "msg_text (Session_started s) = s"
| "msg_text (Partial_msg s) = s"
| "msg_text (Committed_msg s) = s"
| "msg_text (Error_msg s) = s"

definition send_json :: "websocket \<Rightarrow> ws_msg \<Rightarrow> websocket option" where
  "send_json w m =
     (if ws_connected w \<and> \<not> ws_closed w \<and> utf8_encodable (msg_text m)
      then Some (w\<lparr>ws_sent := ws_sent w @ [m]\<rparr>)
      else None)"

definition ws_close :: "websocket \<Rightarrow> websocket" where
  "ws_close w = w\<lparr>ws_closed := True\<rparr>"

subsection \<open>Relaying recognition events\<close>

record segment =
  seg_text :: str
  seg_timestamp :: str

text \<open>
  The payload of an error event: its \<open>error\<close> and \<open>message\<close> entries and \<open>str(data)\<close>.
\<close>

record error_data =
  err_error :: "str option"
  err_message :: "str option"
  err_repr :: str

text \<open>
  What the handlers put on \<open>event_queue\<close>; a transcript event carries
  \<open>data.get("text")\<close>.
\<close>

datatype event = Partial "str option" | Committed "str option" | Error_event error_data | Close

record relay =
  segments :: "segment list"
  relay_ws :: websocket
  el_closed :: bool

text \<open>
  One turn of the loop of \<open>elevenlabs_to_browser\<close> on a dequeued event; \<open>stamp\<close> is
  \<open>dt.datetime.now().isoformat()\<close>.  The flag says whether the loop goes on: it ends
  on a close event and on any exception of a send.
\<close>

definition relay_event :: "relay \<Rightarrow> str \<Rightarrow> event \<Rightarrow> bool \<times> relay" where
  "relay_event r stamp ev =
     (case ev of
        Partial d \<Rightarrow>
          (let text = strip (or_empty d) in
           if text \<noteq> [] then
             (case send_json (relay_ws r) (Partial_msg text) of
                None \<Rightarrow> (False, r)
              | Some w \<Rightarrow> (True, r\<lparr>relay_ws := w\<rparr>))
           else (True, r))
      | Committed d \<Rightarrow>
          (let text = strip (or_empty d) in
           if text \<noteq> [] then
             (let r1 = r\<lparr>segments := segments r @ [\<lparr>seg_text = text, seg_timestamp = stamp\<rparr>]\<rparr> in
              case send_json (relay_ws r1) (Committed_msg text) of
                None \<Rightarrow> (False, r1)
              | Some w \<Rightarrow> (True, r1\<lparr>relay_ws := w\<rparr>))
           else (True, r))
      | Error_event d \<Rightarrow>
          (let message =
                 (if or_empty (err_error d) \<noteq> [] then or_empty (err_error d)
                  else if or_empty (err_message d) \<noteq> [] then or_empty (err_message d)
                  else err_repr d) in
           case send_json (relay_ws r) (Error_msg message) of
             None \<Rightarrow> (False, r)
           | Some w \<Rightarrow> (True, r\<lparr>relay_ws := w\<rparr>))
      | Close \<Rightarrow> (False, r\<lparr>el_closed := True\<rparr>))"

text \<open>
  \<open>elevenlabs_to_browser\<close> on the events it dequeues, in order, each with the time
  of its handling.  The list ends where the task is over for lack of events (stop
  requested and the queue empty) or is cancelled.
\<close>

fun elevenlabs_to_browser :: "relay \<Rightarrow> (event \<times> str) list \<Rightarrow> relay" where
  "elevenlabs_to_browser r [] = r"
| "elevenlabs_to_browser r ((ev, stamp) # evs) =
     (case relay_event r stamp ev of
        (go_on, r1) \<Rightarrow> if go_on then elevenlabs_to_browser r1 evs else r1)"

subsection \<open>The websocket session handler\<close>

text \<open>
  \<open>metadata.json\<close> and the folder of one meeting under \<open>DATA_DIR\<close>, with the two
  files the handler writes (\<open>None\<close>: the file does not exist).
\<close>

record metadata =
  md_title :: str
  md_created_at :: str
  md_status :: str
  md_duration :: int
  md_segment_count :: "nat option"

record meeting_folder =
  metadata_json :: "metadata option"
  transcript_json :: "segment list option"

type_synonym data_dir = "str \<rightharpoonup> meeting_folder"

text \<open>\<open>meeting_dir.mkdir(parents=True, exist_ok=True)\<close>.\<close>

definition mkdir :: "data_dir \<Rightarrow> str \<Rightarrow> data_dir" where
  "mkdir d name =
     (case d name of
        None \<Rightarrow> d(name \<mapsto> \<lparr>metadata_json = None, transcript_json = None\<rparr>)
      | Some folder \<Rightarrow> d)"

definition write_metadata :: "data_dir \<Rightarrow> str \<Rightarrow> metadata \<Rightarrow> data_dir" where
  "write_metadata d name m =
     (case d name of
        None \<Rightarrow> d
      | Some folder \<Rightarrow> d(name \<mapsto> folder\<lparr>metadata_json := Some m\<rparr>))"

definition write_transcript :: "data_dir \<Rightarrow> str \<Rightarrow> segment list \<Rightarrow> data_dir" where
  "write_transcript d name segs =
     (case d name of
        None \<Rightarrow> d
      | Some folder \<Rightarrow> d(name \<mapsto> folder\<lparr>transcript_json := Some segs\<rparr>))"

text \<open>
  The first message of the browser, as \<open>receive_text\<close> and \<open>json.loads\<close> give it:
  the peer is gone, the text is not JSON, or it is an object with the entries
  \<open>type\<close>, \<open>title\<close> and \<open>language\<close> (\<open>None\<close>: no such entry).
\<close>

record start_msg =
  msg_type :: "str option"
  msg_title :: "str option"
  msg_language :: "str option"

datatype received = WebSocketDisconnect | JSONDecodeError | Json start_msg

text \<open>
  What one run of the handler takes from outside: the first message, the meeting
  identifier and creation time it computes from the clock and \<open>uuid4\<close>, the outcome of
  \<open>realtime.connect\<close> (\<open>Some\<close> of \<open>str(exc)\<close> when it raises), the events the relay
  task handles while the session streams, and the measured duration.
\<close>

record session_env =
  first_message :: received
  meeting_id :: str
  created_at :: str
  connect_raises :: "str option"
  relayed :: "(event \<times> str) list"
  duration :: int

record server =
  data_dir :: data_dir
  ws :: websocket

datatype outcome = Returned | Raised

text \<open>
  \<open>ws_transcribe\<close>.  The streaming phase is given by the events its relay task
  handles; the \<open>finally\<close> block that closes the session runs after it on every
  path, and its two writes are taken to succeed.  A send outside a \<open>try\<close> that
  raises leaves the handler with the exception.
\<close>

definition ws_transcribe :: "session_env \<Rightarrow> server \<Rightarrow> outcome \<times> server" where
  "ws_transcribe env srv =
     (case first_message env of
        WebSocketDisconnect \<Rightarrow> (Returned, srv)
      | JSONDecodeError \<Rightarrow> (Returned, srv)
      | Json start \<Rightarrow>
          if msg_type start \<noteq> Some (py_str ''start'') then
            (case send_json (ws srv) (Error_msg (py_str ''Expected start message'')) of
               None \<Rightarrow> (Returned, srv)
             | Some w \<Rightarrow> (Returned, srv\<lparr>ws := ws_close w\<rparr>))
          else
            let title = (case msg_title start of
                           None \<Rightarrow> py_str ''Untitled Meeting''
                         | Some t \<Rightarrow> t);
                meta = \<lparr>md_title = title, md_created_at = created_at env,
                        md_status = py_str ''recording'', md_duration = 0,
                        md_segment_count = None\<rparr>;
                d1 = mkdir (data_dir srv) (meeting_id env);
                srv1 = srv\<lparr>data_dir := write_metadata d1 (meeting_id env) meta\<rparr>
            in (case send_json (ws srv1) (Session_started (meeting_id env)) of
                 None \<Rightarrow> (Raised, srv1)
               | Some w1 \<Rightarrow>
                   (case connect_raises env of
                      Some exc \<Rightarrow>
                        (case send_json w1
                                (Error_msg (py_str ''ElevenLabs connection failed: '' @ exc)) of
                           None \<Rightarrow> (Raised, srv1\<lparr>ws := w1\<rparr>)
                         | Some w2 \<Rightarrow> (Returned, srv1\<lparr>ws := ws_close w2\<rparr>))
                    | None \<Rightarrow>
                        let r = elevenlabs_to_browser
                                  \<lparr>segments = [], relay_ws = w1, el_closed = False\<rparr> (relayed env);
                            d2 = write_transcript (data_dir srv1) (meeting_id env) (segments r);
                            final = meta\<lparr>md_status := py_str ''completed'',
                                         md_duration := duration env,
                                         md_segment_count := Some (length (segments r))\<rparr>;
                            d3 = write_metadata d2 (meeting_id env) final
                        in (Returned, \<lparr>data_dir = d3, ws = ws_close (relay_ws r)\<rparr>))))"

section \<open>The float difference and the threshold\<close>

lemma round_half_even_le: "y \<le> of_int N \<Longrightarrow> round_half_even y \<le> N"
proof -
  assume h: "y \<le> of_int N"
  have f: "\<lfloor>y\<rfloor> \<le> N" using h by (simp add: floor_le_iff)
  show ?thesis
  proof (cases "\<lfloor>y\<rfloor> = N")
    case True
    then have "y - of_int \<lfloor>y\<rfloor> \<le> 0" using h by simp
    then show ?thesis using True by (simp add: round_half_even_def Let_def)
  next
    case False
    then have "\<lfloor>y\<rfloor> + 1 \<le> N" using f by simp
    then show ?thesis by (simp add: round_half_even_def Let_def)
  qed
qed

lemma round_half_even_ge_floor: "\<lfloor>y\<rfloor> \<le> round_half_even y"
  by (simp add: round_half_even_def Let_def)

lemma round_half_even_ge: "of_int N \<le> y \<Longrightarrow> N \<le> round_half_even y"
proof -
  assume "of_int N \<le> y"
  then have "N \<le> \<lfloor>y\<rfloor>" by (simp add: le_floor_iff)
  then show ?thesis using round_half_even_ge_floor[of y] by linarith
qed

lemma round_half_even_above_half:
  assumes "of_int N + 1 / 2 < y"
  shows "N + 1 \<le> round_half_even y"
proof -
  have f: "N \<le> \<lfloor>y\<rfloor>" using assms by (simp add: le_floor_iff)
  show ?thesis
  proof (cases "\<lfloor>y\<rfloor> = N")
    case True
    then have "1 / 2 < y - of_int \<lfloor>y\<rfloor>" using assms by simp
    then show ?thesis using True by (simp add: round_half_even_def Let_def)
  next
    case False
    then have "N + 1 \<le> \<lfloor>y\<rfloor>" using f by simp
    then show ?thesis using round_half_even_ge_floor[of y] by linarith
  qed
qed

lemma round_half_even_tie_down:
  assumes "of_int N \<le> y" and "y \<le> of_int N + 1 / 2" and "even N"
  shows "round_half_even y = N"
proof -
  have f: "\<lfloor>y\<rfloor> = N" using assms by (simp add: floor_eq_iff)
  show ?thesis using assms f by (simp add: round_half_even_def Let_def)
qed

lemma round_double_le_8:
  assumes "x \<le> 8 + 1 / 2 ^ 50"
  shows "round_double x \<le> 8"
proof -
  define u where "u = ulp_exponent x"
  define p :: real where "p = 2 powr of_int u"
  have p0: "0 < p" by (simp add: p_def)
  have rd: "x \<noteq> 0 \<Longrightarrow> round_double x = of_int (round_half_even (x / p)) * p"
    by (simp add: round_double_def p_def u_def)
  consider "x = 0" | "x < 0" | "0 < x" "x < 8" | "8 \<le> x" by linarith
  then show ?thesis
  proof cases
    case 1
    then show ?thesis by (simp add: round_double_def)
  next
    case 2
    then have "x / p \<le> of_int 0" using p0 by (simp add: divide_le_0_iff)
    then have "round_half_even (x / p) \<le> 0" by (rule round_half_even_le)
    then have "of_int (round_half_even (x / p)) * p \<le> 0"
      using p0 by (simp add: mult_le_0_iff)
    then show ?thesis using rd 2 by simp
  next
    case 3
    have "log 2 x < 3"
    proof -
      have "log 2 x < log 2 8" using 3 by simp
      moreover have "log 2 8 = (3::real)"
        using log_pow_cancel[of 2 3] by simp
      ultimately show ?thesis by simp
    qed
    then have "\<lfloor>log 2 \<bar>x\<bar>\<rfloor> \<le> 2" using 3 by (simp add: floor_le_iff)
    then have u: "u \<le> - 50" by (simp add: u_def ulp_exponent_def)
    define N :: int where "N = 2 ^ nat (3 - u)"
    have "(of_int N :: real) = (2::real) ^ nat (3 - u)" by (simp add: N_def)
    also have "\<dots> = 2 powr real (nat (3 - u))" by (simp add: powr_realpow)
    also have "real (nat (3 - u)) = 3 - of_int u" using u by simp
    finally have N: "(of_int N :: real) = 2 powr (3 - of_int u)" .
    have Np: "of_int N * p = 8"
      unfolding N p_def by (simp add: powr_add[symmetric])
    then have "x / p \<le> of_int N" using p0 3 by (simp add: field_simps)
    then have "round_half_even (x / p) \<le> N" by (rule round_half_even_le)
    then have "of_int (round_half_even (x / p)) * p \<le> of_int N * p"
      using p0 by simp
    then show ?thesis using rd 3 Np by simp
  next
    case 4
    have e: "\<lfloor>log 2 \<bar>x\<bar>\<rfloor> = 3"
    proof -
      have "\<lfloor>log 2 x\<rfloor> = 3 \<longleftrightarrow> 2 powr (of_int 3) \<le> x \<and> x < 2 powr (of_int (3 + 1))"
        using 4 by (intro floor_log_eq_powr_iff) simp_all
      moreover have "(2::real) powr of_int 3 = 8" "(2::real) powr of_int (3 + 1) = 16"
        by simp_all
      ultimately show ?thesis using 4 assms by simp
    qed
    have u: "u = - 49" by (simp add: u_def ulp_exponent_def e)
    have p: "p = 1 / 2 ^ 49"
      unfolding p_def u by (simp add: powr_minus_divide)
    have y: "x / p = x * 2 ^ 49" by (simp add: p)
    have "round_half_even (x / p) = 2 ^ 52"
    proof (rule round_half_even_tie_down)
      show "of_int (2 ^ 52) \<le> x / p" using 4 by (simp add: y)
      show "x / p \<le> of_int (2 ^ 52) + 1 / 2" using assms by (simp add: y)
      show "even ((2::int) ^ 52)" by simp
    qed
    then show ?thesis using rd 4 by (simp add: p)
  qed
qed

lemma round_double_gt_8:
  assumes "8 + 1 / 2 ^ 50 < x"
  shows "8 < round_double x"
proof -
  define e where "e = \<lfloor>log 2 \<bar>x\<bar>\<rfloor>"
  define u where "u = ulp_exponent x"
  define p :: real where "p = 2 powr of_int u"
  have p0: "0 < p" by (simp add: p_def)
  have x0: "0 < x" using assms by (smt (verit) zero_less_divide_1_iff zero_less_power)
  have rd: "round_double x = of_int (round_half_even (x / p)) * p"
    using x0 by (simp add: round_double_def p_def u_def)
  have bounds: "2 powr of_int e \<le> x \<and> x < 2 powr of_int (e + 1)"
    using floor_log_eq_powr_iff[of x 2 e] x0 by (simp add: e_def)
  have x8: "8 < x" using assms by (smt (verit) zero_less_divide_1_iff zero_less_power)
  have e3: "3 \<le> e"
  proof (rule ccontr)
    assume "\<not> 3 \<le> e"
    then have "real_of_int (e + 1) \<le> 3" by simp
    then have "(2::real) powr real_of_int (e + 1) \<le> 2 powr 3"
      by (intro powr_mono) simp_all
    moreover have "(2::real) powr 3 = 8" by simp
    ultimately show False using bounds x8 by linarith
  qed
  have u: "u = e - 52" using e3 by (simp add: u_def ulp_exponent_def e_def)
  show ?thesis
  proof (cases "e = 3")
    case True
    have p: "p = 1 / 2 ^ 49"
      unfolding p_def u True by (simp add: powr_minus_divide)
    have "of_int (2 ^ 52) + 1 / 2 < x / p" using assms by (simp add: p)
    then have "2 ^ 52 + 1 \<le> round_half_even (x / p)"
      by (rule round_half_even_above_half)
    then have "of_int (2 ^ 52 + 1) \<le> (of_int (round_half_even (x / p)) :: real)"
      by (simp only: of_int_le_iff)
    then have "of_int (2 ^ 52 + 1) * p \<le> of_int (round_half_even (x / p)) * p"
      using p0 by simp
    moreover have "8 < of_int (2 ^ 52 + 1) * p" by (simp add: p)
    ultimately show ?thesis using rd by linarith
  next
    case False
    then have e4: "4 \<le> e" using e3 by simp
    have "2 powr of_int e / p = 2 powr (of_int e - of_int u)"
      by (simp add: p_def powr_diff)
    also have "\<dots> = 2 powr (real 52)" by (simp add: u)
    also have "\<dots> = 2 ^ 52" by (subst powr_realpow) simp_all
    finally have q: "2 powr of_int e / p = 2 ^ 52" .
    have "2 powr of_int e / p \<le> x / p" using bounds p0 by (simp add: divide_right_mono)
    then have "of_int (2 ^ 52) \<le> x / p" using q by simp
    then have "2 ^ 52 \<le> round_half_even (x / p)" by (rule round_half_even_ge)
    then have "of_int (2 ^ 52) \<le> (of_int (round_half_even (x / p)) :: real)"
      by (simp only: of_int_le_iff)
    then have "of_int (2 ^ 52) * p \<le> of_int (round_half_even (x / p)) * p"
      using p0 by simp
    moreover have "of_int (2 ^ 52) * p = 2 powr of_int e"
      using q p0 by (simp add: field_simps)
    moreover have "(2::real) powr 4 \<le> 2 powr of_int e"
      using e4 by (intro powr_mono) simp_all
    moreover have "(2::real) powr 4 = 16" by simp
    ultimately show ?thesis using rd by linarith
  qed
qed

lemma float_sub_gt_8_iff: "8 < float_sub a b \<longleftrightarrow> 8 + 1 / 2 ^ 50 < a - b"
  using round_double_le_8[of "a - b"] round_double_gt_8[of "a - b"]
  unfolding float_sub_def by fastforce

section \<open>Properties of the committed-text deduplication\<close>

subsection \<open>Auxiliary facts\<close>

lemma find_overlap_none:
  "(\<And>j. 20 \<le> j \<Longrightarrow> j \<le> n \<Longrightarrow> slice_last p j \<noteq> slice_to c j) \<Longrightarrow> find_overlap p c n = 0"
proof (induction p c n rule: find_overlap.induct)
  case (1 previous current sz)
  show ?case
  proof (cases "sz \<le> 19")
    case True
    then show ?thesis by (subst find_overlap.simps) simp
  next
    case False
    then have ne: "slice_last previous sz \<noteq> slice_to current sz"
      using "1.prems"[of sz] by simp
    have "find_overlap previous current (sz - 1) = 0"
      using False ne "1.prems" by (intro "1.IH") auto
    then show ?thesis using False ne by (subst find_overlap.simps) simp
  qed
qed

lemma find_overlap_found:
  "20 \<le> k \<Longrightarrow> k \<le> n \<Longrightarrow> slice_last p k = slice_to c k \<Longrightarrow>
   (\<And>j. k < j \<Longrightarrow> j \<le> n \<Longrightarrow> slice_last p j \<noteq> slice_to c j) \<Longrightarrow> find_overlap p c n = k"
proof (induction p c n rule: find_overlap.induct)
  case (1 previous current sz)
  show ?case
  proof (cases "sz = k")
    case True
    then show ?thesis using "1.prems" by (subst find_overlap.simps) simp
  next
    case False
    then have lt: "k < sz" using "1.prems" by simp
    then have ne: "slice_last previous sz \<noteq> slice_to current sz"
      using "1.prems"(4)[of sz] by simp
    have "find_overlap previous current (sz - 1) = k"
      using lt ne "1.prems" by (intro "1.IH") auto
    then show ?thesis using lt ne "1.prems" by (subst find_overlap.simps) simp
  qed
qed

lemma find_overlap_le: "find_overlap p c n \<le> n"
  by (induction p c n rule: find_overlap.induct) (subst find_overlap.simps, auto)

lemma find_overlap_max:
  "find_overlap p c n = k \<Longrightarrow> k < j \<Longrightarrow> j \<le> n \<Longrightarrow> 20 \<le> j \<Longrightarrow> slice_last p j \<noteq> slice_to c j"
proof (induction p c n rule: find_overlap.induct)
  case (1 previous current sz)
  have big: "\<not> sz \<le> 19" using "1.prems" by simp
  show ?case
  proof (cases "slice_last previous sz = slice_to current sz")
    case True
    then have "find_overlap previous current sz = sz"
      using big by (subst find_overlap.simps) simp
    then show ?thesis using "1.prems" by simp
  next
    case False
    then have eq: "find_overlap previous current (sz - 1) = k"
      using big "1.prems"(1) by (subst (asm) find_overlap.simps) simp
    show ?thesis
    proof (cases "j = sz")
      case True
      then show ?thesis using False by simp
    next
      case False
      then show ?thesis using "1.IH"[OF big \<open>slice_last previous sz \<noteq> slice_to current sz\<close> eq] "1.prems" by simp
    qed
  qed
qed

lemma lstrip_strip: "lstrip (strip s) = strip s"
proof (cases "dropWhile isspace s")
  case Nil
  have "strip s = []" unfolding strip_def lstrip_def rstrip_def Nil by simp
  then show ?thesis by (simp add: lstrip_def)
next
  case (Cons x xs)
  then have nx: "\<not> isspace x" by (metis dropWhile_eq_Cons_conv)
  have "strip s = x # rev (dropWhile isspace (rev xs))"
    using Cons nx by (simp add: strip_def lstrip_def rstrip_def dropWhile_append3)
  then show ?thesis using nx by (simp add: lstrip_def)
qed

lemma startswith_prefix: "startswith s p = prefix p s"
  unfolding startswith_def
  by (metis append_eq_conv_conj prefixE prefixI append_take_drop_id)

lemma common_overlap_iff:
  "common_overlap P C n \<longleftrightarrow> n \<le> length P \<and> n \<le> length C \<and> drop (length P - n) P = take n C"
proof
  assume "common_overlap P C n"
  then obtain w where w: "length w = n" "suffix w P" "prefix w C"
    unfolding common_overlap_def by blast
  from w(2) obtain a where a: "P = a @ w" by (auto simp: suffix_def)
  from w(3) obtain b where b: "C = w @ b" by (auto simp: prefix_def)
  show "n \<le> length P \<and> n \<le> length C \<and> drop (length P - n) P = take n C"
    using w(1) a b by simp
next
  assume h: "n \<le> length P \<and> n \<le> length C \<and> drop (length P - n) P = take n C"
  have "suffix (drop (length P - n) P) P" by (rule suffix_drop)
  moreover have "prefix (take n C) C" by (rule take_is_prefix)
  moreover have "length (take n C) = n" using h by simp
  ultimately show "common_overlap P C n"
    unfolding common_overlap_def using h by metis
qed

lemma common_overlap_slices:
  "0 < n \<Longrightarrow> n \<le> length P \<Longrightarrow> n \<le> length C \<Longrightarrow>
   common_overlap P C n \<longleftrightarrow> slice_last P n = slice_to C n"
  by (simp add: common_overlap_iff slice_last_def slice_to_def)


lemma dedupe_fallback:
  assumes "fallback_case self now (strip (or_empty text))"
  shows "dedupe_committed_text self now text =
    (let C = strip (or_empty text);
         ov = find_overlap (last_committed_text self) C
                (min (length (last_committed_text self)) (min (length C) 220))
     in (if 0 < ov then lstrip (drop ov C) else C,
         self\<lparr>last_committed_text := C, last_committed_time := now\<rparr>))"
proof -
  have ne: "last_committed_text self \<noteq> []"
    using assms by (auto simp: fallback_case_def)
  show ?thesis
    using assms ne
    by (simp add: dedupe_committed_text_def fallback_case_def startswith_prefix Let_def
        slice_from_def float_sub_gt_8_iff)
qed

lemma dedupe_overlap_general:
  assumes fb: "fallback_case self now (strip (or_empty text))"
    and k: "20 \<le> k" "k \<le> 220"
    and ov: "common_overlap (last_committed_text self) (strip (or_empty text)) k"
    and mx: "\<forall>j. k < j \<and> j \<le> 220 \<longrightarrow>
               \<not> common_overlap (last_committed_text self) (strip (or_empty text)) j"
  shows "dedupe_committed_text self now text =
    (lstrip (drop k (strip (or_empty text))),
     self\<lparr>last_committed_text := strip (or_empty text), last_committed_time := now\<rparr>)"
proof -
  define P where "P = last_committed_text self"
  define C where "C = strip (or_empty text)"
  define n where "n = min (length P) (min (length C) 220)"
  have kP: "k \<le> length P" and kC: "k \<le> length C"
    using ov by (simp_all add: common_overlap_iff P_def C_def)
  have kn: "k \<le> n" using kP kC k by (simp add: n_def)
  have m: "slice_last P k = slice_to C k"
    using ov k kP kC common_overlap_slices[of k P C] by (simp add: P_def C_def)
  have above: "slice_last P j \<noteq> slice_to C j" if "k < j" "j \<le> n" for j
  proof -
    have "\<not> common_overlap P C j" using mx that by (simp add: n_def P_def C_def)
    moreover have "0 < j" "j \<le> length P" "j \<le> length C" using that by (simp_all add: n_def)
    ultimately show ?thesis using common_overlap_slices[of j P C] by simp
  qed
  have "find_overlap P C n = k"
    using k(1) kn m above by (rule find_overlap_found)
  then show ?thesis
    using dedupe_fallback[OF fb] k by (simp add: Let_def P_def C_def n_def)
qed

lemma dedupe_no_overlap_general:
  assumes fb: "fallback_case self now (strip (or_empty text))"
    and none: "\<forall>n. 20 \<le> n \<longrightarrow>
               \<not> common_overlap (last_committed_text self) (strip (or_empty text)) n"
  shows "dedupe_committed_text self now text =
    (strip (or_empty text),
     self\<lparr>last_committed_text := strip (or_empty text), last_committed_time := now\<rparr>)"
proof -
  define P where "P = last_committed_text self"
  define C where "C = strip (or_empty text)"
  define n where "n = min (length P) (min (length C) 220)"
  have no: "slice_last P j \<noteq> slice_to C j" if "20 \<le> j" "j \<le> n" for j
  proof -
    have "\<not> common_overlap P C j" using none that by (simp add: P_def C_def)
    moreover have "0 < j" "j \<le> length P" "j \<le> length C" using that by (simp_all add: n_def)
    ultimately show ?thesis using common_overlap_slices[of j P C] by simp
  qed
  have "find_overlap P C n = 0" using no by (rule find_overlap_none)
  then show ?thesis
    using dedupe_fallback[OF fb] by (simp add: Let_def P_def C_def n_def)
qed

lemmas str_eval = py_str_def strip_def lstrip_def rstrip_def isspace_def or_empty_def
  startswith_def slice_from_def slice_to_def slice_last_def

lemma release_example:
  assumes "last_committed_text self = py_str ''I think we should ship the release today''"
    and "now - last_committed_time self \<le> 8"
  shows "dedupe_committed_text self now (Some (py_str ''ship the release today and notify the team'')) =
    (py_str ''and notify the team'',
     self\<lparr>last_committed_text := py_str ''ship the release today and notify the team'',
          last_committed_time := now\<rparr>)"
  using assms
  by (simp add: dedupe_committed_text_def Let_def str_eval find_overlap.simps float_sub_gt_8_iff)

lemma brown_example:
  assumes "last_committed_text self = py_str ''...the quick brown''"
    and "now - last_committed_time self \<le> 8"
  shows "dedupe_committed_text self now (Some (py_str ''brown fox jumps'')) =
    (py_str ''brown fox jumps'',
     self\<lparr>last_committed_text := py_str ''brown fox jumps'', last_committed_time := now\<rparr>)"
  using assms
  by (simp add: dedupe_committed_text_def Let_def str_eval find_overlap.simps float_sub_gt_8_iff)

lemma lstrip_no_leading_space: "s \<noteq> [] \<Longrightarrow> \<not> isspace (hd s) \<Longrightarrow> lstrip s = s"
  by (cases s) (simp_all add: lstrip_def)

subsection \<open>Progressive extension\<close>

text \<open>
  Claim C5.  Let the remembered text \<open>P\<close> be non-empty and let the trimmed text of the
  event be \<open>C = P + sfx\<close> for a non-empty \<open>sfx\<close> that does not begin with whitespace.
  If no more than 8 seconds have passed since the remembered time, the call returns
  exactly \<open>sfx\<close>, and afterwards the remembered text is \<open>C\<close> and the remembered time
  is \<open>now\<close>; nothing else of the object changes.
\<close>

theorem extension_emits_suffix:
  assumes "last_committed_text self = P" and "P \<noteq> []"
    and "sfx \<noteq> []" and "\<not> isspace (hd sfx)"
    and "strip (or_empty text) = P @ sfx"
    and "now - last_committed_time self \<le> 8"
  shows "dedupe_committed_text self now text =
    (sfx, self\<lparr>last_committed_text := P @ sfx, last_committed_time := now\<rparr>)"
  using assms
  by (simp add: dedupe_committed_text_def Let_def startswith_def slice_from_def
      lstrip_no_leading_space float_sub_gt_8_iff)

theorem extension_emits_suffix_witness:
  "last_committed_text (init_transcriber 960 200
       \<lparr>last_committed_text := py_str ''hello'', last_committed_time := 100\<rparr>) = py_str ''hello'' \<and>
   py_str ''hello'' \<noteq> [] \<and> py_str '', world'' \<noteq> [] \<and> \<not> isspace (hd (py_str '', world'')) \<and>
   strip (or_empty (Some (py_str '' hello, world ''))) = py_str ''hello'' @ py_str '', world'' \<and>
   (103::real) - last_committed_time (init_transcriber 960 200
       \<lparr>last_committed_text := py_str ''hello'', last_committed_time := 100\<rparr>) \<le> 8 \<and>
   dedupe_committed_text
     (init_transcriber 960 200\<lparr>last_committed_text := py_str ''hello'', last_committed_time := 100\<rparr>)
     103 (Some (py_str '' hello, world '')) =
   (py_str '', world'',
    init_transcriber 960 200\<lparr>last_committed_text := py_str ''hello'', last_committed_time := 100\<rparr>
      \<lparr>last_committed_text := py_str ''hello'' @ py_str '', world'', last_committed_time := 103\<rparr>)"
proof -
  let ?s = "init_transcriber 960 200
       \<lparr>last_committed_text := py_str ''hello'', last_committed_time := 100\<rparr>"
  have h1: "last_committed_text ?s = py_str ''hello''" by simp
  have h2: "py_str ''hello'' \<noteq> []" by (simp add: py_str_def)
  have h3: "py_str '', world'' \<noteq> []" by (simp add: py_str_def)
  have h4: "\<not> isspace (hd (py_str '', world''))" by (simp add: py_str_def isspace_def)
  have h5: "strip (or_empty (Some (py_str '' hello, world ''))) = py_str ''hello'' @ py_str '', world''"
    by (simp add: str_eval)
  have h6: "(103::real) - last_committed_time ?s \<le> 8" by simp
  show ?thesis
    using extension_emits_suffix[OF h1 h2 h3 h4 h5 h6] h1 h2 h3 h4 h5 h6 by simp
qed

subsection \<open>Exact duplicates\<close>

text \<open>
  Claim C6.  Let the remembered text \<open>P\<close> be non-empty and let the trimmed text of the
  event equal \<open>P\<close>.  If no more than 8 seconds have passed since the remembered time,
  the call returns the empty string and leaves the object as it was: neither the
  remembered text nor the remembered time is refreshed.
\<close>

theorem exact_duplicate_leaves_state:
  assumes "last_committed_text self \<noteq> []"
    and "strip (or_empty text) = last_committed_text self"
    and "now - last_committed_time self \<le> 8"
  shows "dedupe_committed_text self now text = ([], self)"
  using assms by (simp add: dedupe_committed_text_def Let_def float_sub_gt_8_iff)

theorem exact_duplicate_leaves_state_witness:
  "last_committed_text (init_transcriber 960 200
       \<lparr>last_committed_text := py_str ''hello'', last_committed_time := 100\<rparr>) \<noteq> [] \<and>
   strip (or_empty (Some (py_str ''hello ''))) =
     last_committed_text (init_transcriber 960 200
       \<lparr>last_committed_text := py_str ''hello'', last_committed_time := 100\<rparr>) \<and>
   (108::real) - last_committed_time (init_transcriber 960 200
       \<lparr>last_committed_text := py_str ''hello'', last_committed_time := 100\<rparr>) \<le> 8 \<and>
   dedupe_committed_text
     (init_transcriber 960 200\<lparr>last_committed_text := py_str ''hello'', last_committed_time := 100\<rparr>)
     108 (Some (py_str ''hello '')) =
   ([], init_transcriber 960 200\<lparr>last_committed_text := py_str ''hello'', last_committed_time := 100\<rparr>)"
proof -
  let ?s = "init_transcriber 960 200
       \<lparr>last_committed_text := py_str ''hello'', last_committed_time := 100\<rparr>"
  have h1: "last_committed_text ?s \<noteq> []" by (simp add: py_str_def)
  have h2: "strip (or_empty (Some (py_str ''hello ''))) = last_committed_text ?s"
    by (simp add: str_eval)
  have h3: "(108::real) - last_committed_time ?s \<le> 8" by simp
  show ?thesis
    using exact_duplicate_leaves_state[OF h1 h2 h3] h1 h2 h3 by simp
qed

subsection \<open>Gap reset\<close>




subsection \<open>The fallback case\<close>

text \<open>
  Claim C3.  In the fallback case (the trimmed text \<open>C\<close> of the event is not empty, no
  more than 8 seconds have passed, \<open>C\<close> differs from the remembered text \<open>P\<close> and
  neither is a prefix of the other), let \<open>k\<close> be the greatest length from 20 to
  \<open>min(|P|, |C|, 220)\<close> of a string that ends \<open>P\<close> and begins \<open>C\<close>.  Then the call
  returns \<open>C\<close> without its first \<open>k\<close> characters, left-trimmed, and afterwards the
  remembered text is \<open>C\<close> and the remembered time is \<open>now\<close>.  For
  \<open>P = "I think we should ship the release today"\<close> and
  \<open>C = "ship the release today and notify the team"\<close> it returns
  \<open>"and notify the team"\<close>.
\<close>

theorem fallback_overlap_removed:
  "(\<forall>self now text k.
      fallback_case self now (strip (or_empty text)) \<and> 20 \<le> k \<and> k \<le> 220 \<and>
      common_overlap (last_committed_text self) (strip (or_empty text)) k \<and>
      (\<forall>j. k < j \<and> j \<le> 220 \<longrightarrow>
         \<not> common_overlap (last_committed_text self) (strip (or_empty text)) j) \<longrightarrow>
      dedupe_committed_text self now text =
        (lstrip (drop k (strip (or_empty text))),
         self\<lparr>last_committed_text := strip (or_empty text), last_committed_time := now\<rparr>)) \<and>
   (\<forall>self now.
      last_committed_text self = py_str ''I think we should ship the release today'' \<and>
      now - last_committed_time self \<le> 8 \<longrightarrow>
      dedupe_committed_text self now
          (Some (py_str ''ship the release today and notify the team'')) =
        (py_str ''and notify the team'',
         self\<lparr>last_committed_text := py_str ''ship the release today and notify the team'',
              last_committed_time := now\<rparr>))"
  using dedupe_overlap_general release_example by blast

theorem fallback_overlap_removed_witness:
  "fallback_case
     (init_transcriber 960 200
        \<lparr>last_committed_text := py_str ''I think we should ship the release today'',
         last_committed_time := 100\<rparr>)
     104 (strip (or_empty (Some (py_str ''ship the release today and notify the team'')))) \<and>
   common_overlap (py_str ''I think we should ship the release today'')
     (strip (or_empty (Some (py_str ''ship the release today and notify the team'')))) 22 \<and>
   dedupe_committed_text
     (init_transcriber 960 200
        \<lparr>last_committed_text := py_str ''I think we should ship the release today'',
         last_committed_time := 100\<rparr>)
     104 (Some (py_str ''ship the release today and notify the team'')) =
   (py_str ''and notify the team'',
    init_transcriber 960 200
        \<lparr>last_committed_text := py_str ''I think we should ship the release today'',
         last_committed_time := 100\<rparr>
        \<lparr>last_committed_text := py_str ''ship the release today and notify the team'',
         last_committed_time := 104\<rparr>)"
proof -
  let ?P = "py_str ''I think we should ship the release today''"
  let ?t = "Some (py_str ''ship the release today and notify the team'')"
  let ?s = "init_transcriber 960 200\<lparr>last_committed_text := ?P, last_committed_time := 100\<rparr>"
  have c: "strip (or_empty ?t) = py_str ''ship the release today and notify the team''"
    by (simp add: str_eval)
  have lP: "length ?P = 40" by (simp add: py_str_def)
  have lC: "length (strip (or_empty ?t)) = 42" by (simp add: c) (simp add: py_str_def)
  have fb: "fallback_case ?s 104 (strip (or_empty ?t))"
    unfolding c by (simp add: fallback_case_def py_str_def)
  have ov: "common_overlap (last_committed_text ?s) (strip (or_empty ?t)) 22"
    unfolding c by (simp add: common_overlap_iff py_str_def)
  have fo: "find_overlap ?P (strip (or_empty ?t)) 40 = 22"
    unfolding c by (simp add: find_overlap.simps py_str_def slice_last_def slice_to_def)
  have mx: "\<forall>j. 22 < j \<and> j \<le> 220 \<longrightarrow>
      \<not> common_overlap (last_committed_text ?s) (strip (or_empty ?t)) j"
  proof (intro allI impI)
    fix j :: nat
    assume j: "22 < j \<and> j \<le> 220"
    show "\<not> common_overlap (last_committed_text ?s) (strip (or_empty ?t)) j"
    proof (cases "j \<le> 40")
      case True
      then have "slice_last ?P j \<noteq> slice_to (strip (or_empty ?t)) j"
        using find_overlap_max[OF fo, of j] j by simp
      then show ?thesis
        using common_overlap_slices[of j ?P "strip (or_empty ?t)"] True j lP lC by simp
    next
      case False
      then show ?thesis using lP by (simp add: common_overlap_iff)
    qed
  qed
  have r: "dedupe_committed_text ?s 104 ?t =
     (lstrip (drop 22 (strip (or_empty ?t))),
      ?s\<lparr>last_committed_text := strip (or_empty ?t), last_committed_time := 104\<rparr>)"
    by (rule fallback_overlap_removed[THEN conjunct1, rule_format]) (use fb ov mx in simp)
  have d: "lstrip (drop 22 (py_str ''ship the release today and notify the team'')) =
      py_str ''and notify the team''"
    by (simp add: str_eval)
  show ?thesis using fb ov r by (simp add: c d)
qed

text \<open>
  Claim C4.  In the fallback case, if no string of 20 or more characters ends the
  remembered text \<open>P\<close> and begins the trimmed text \<open>C\<close> of the event, the call
  returns \<open>C\<close> unchanged, and afterwards the remembered text is \<open>C\<close> and the
  remembered time is \<open>now\<close>.  For \<open>P = "...the quick brown"\<close> and
  \<open>C = "brown fox jumps"\<close>, which share the 5 characters \<open>"brown"\<close>, it returns
  \<open>C\<close> unchanged.
\<close>

theorem fallback_without_overlap_verbatim:
  "(\<forall>self now text.
      fallback_case self now (strip (or_empty text)) \<and>
      (\<forall>n. 20 \<le> n \<longrightarrow>
         \<not> common_overlap (last_committed_text self) (strip (or_empty text)) n) \<longrightarrow>
      dedupe_committed_text self now text =
        (strip (or_empty text),
         self\<lparr>last_committed_text := strip (or_empty text), last_committed_time := now\<rparr>)) \<and>
   (\<forall>self now.
      last_committed_text self = py_str ''...the quick brown'' \<and>
      now - last_committed_time self \<le> 8 \<longrightarrow>
      dedupe_committed_text self now (Some (py_str ''brown fox jumps'')) =
        (py_str ''brown fox jumps'',
         self\<lparr>last_committed_text := py_str ''brown fox jumps'', last_committed_time := now\<rparr>))"
  using dedupe_no_overlap_general brown_example by blast

theorem fallback_without_overlap_verbatim_witness:
  "fallback_case
     (init_transcriber 960 200
        \<lparr>last_committed_text := py_str ''...the quick brown'', last_committed_time := 100\<rparr>)
     104 (strip (or_empty (Some (py_str ''brown fox jumps'')))) \<and>
   common_overlap (py_str ''...the quick brown'')
     (strip (or_empty (Some (py_str ''brown fox jumps'')))) 5 \<and>
   dedupe_committed_text
     (init_transcriber 960 200
        \<lparr>last_committed_text := py_str ''...the quick brown'', last_committed_time := 100\<rparr>)
     104 (Some (py_str ''brown fox jumps'')) =
   (py_str ''brown fox jumps'',
    init_transcriber 960 200
        \<lparr>last_committed_text := py_str ''...the quick brown'', last_committed_time := 100\<rparr>
        \<lparr>last_committed_text := py_str ''brown fox jumps'', last_committed_time := 104\<rparr>)"
proof -
  let ?P = "py_str ''...the quick brown''"
  let ?t = "Some (py_str ''brown fox jumps'')"
  let ?s = "init_transcriber 960 200\<lparr>last_committed_text := ?P, last_committed_time := 100\<rparr>"
  have c: "strip (or_empty ?t) = py_str ''brown fox jumps''"
    by (simp add: str_eval)
  have fb: "fallback_case ?s 104 (strip (or_empty ?t))"
    unfolding c by (simp add: fallback_case_def py_str_def)
  have ov: "common_overlap ?P (strip (or_empty ?t)) 5"
    unfolding c by (simp add: common_overlap_iff py_str_def)
  have none: "\<forall>n. 20 \<le> n \<longrightarrow>
      \<not> common_overlap (last_committed_text ?s) (strip (or_empty ?t)) n"
    unfolding c by (simp add: common_overlap_iff py_str_def)
  have r: "dedupe_committed_text ?s 104 ?t =
     (strip (or_empty ?t),
      ?s\<lparr>last_committed_text := strip (or_empty ?t), last_committed_time := 104\<rparr>)"
    by (rule fallback_without_overlap_verbatim[THEN conjunct1, rule_format])
      (use fb none in simp)
  show ?thesis using fb ov r by (simp add: c)
qed

subsection \<open>The shape of the returned text\<close>

lemma dedupe_keeps_files:
  "segment_index (snd (dedupe_committed_text self now text)) = segment_index self \<and>
   segment_files (snd (dedupe_committed_text self now text)) = segment_files self \<and>
   transcript (snd (dedupe_committed_text self now text)) = transcript self \<and>
   transcript_plain (snd (dedupe_committed_text self now text)) = transcript_plain self"
  by (simp add: dedupe_committed_text_def Let_def)

lemma dedupe_fst_form:
  "fst (dedupe_committed_text self now text) = [] \<or>
   (\<exists>k<length (strip (or_empty text)).
      fst (dedupe_committed_text self now text) = lstrip (slice_from (strip (or_empty text)) k))"
proof -
  define C where "C = strip (or_empty text)"
  define P where "P = last_committed_text self"
  define ov where "ov = find_overlap P C (min (length P) (min (length C) 220))"
  have whole: "\<exists>k<length C. C = lstrip (slice_from C k)" if "C \<noteq> []"
    using that by (intro exI[of _ 0]) (simp add: slice_from_def C_def lstrip_strip)
  have ext: "\<exists>k<length C. lstrip (slice_from C (length P)) = lstrip (slice_from C k)"
    if "startswith C P" "C \<noteq> P"
  proof -
    have "length (take (length P) C) = length P"
      using that(1) unfolding startswith_def by simp
    then have "length P \<le> length C" by simp
    moreover have "length P \<noteq> length C" using that unfolding startswith_def by auto
    ultimately show ?thesis by (intro exI[of _ "length P"]) simp
  qed
  have ovl: "lstrip (slice_from C ov) = [] \<or>
      (\<exists>k<length C. lstrip (slice_from C ov) = lstrip (slice_from C k))"
  proof (cases "ov < length C")
    case True
    then show ?thesis by blast
  next
    case False
    then show ?thesis by (simp add: slice_from_def lstrip_def)
  qed
  show ?thesis
    using whole ext ovl
    unfolding dedupe_committed_text_def Let_def C_def[symmetric] P_def[symmetric] ov_def[symmetric]
    by (simp split: if_splits)
qed

lemma handle_no_segment:
  assumes "fst (dedupe_committed_text self now text) = []"
  shows "handle_committed_text self now stamp print_ok text =
    (None, snd (dedupe_committed_text self now text))"
  using assms
  by (cases "dedupe_committed_text self now text") (simp add: handle_committed_text_def)

lemma handle_segment:
  assumes "dedupe_committed_text self now text = (out, self1)" and "out \<noteq> []"
  shows "segment_files (snd (handle_committed_text self now stamp print_ok text)) =
      (segment_files self)(segment_index self + 1 \<mapsto>
         (if utf8_encodable (out @ [10]) then out @ [10] else [])) \<and>
    transcript_plain (snd (handle_committed_text self now stamp print_ok text)) =
      transcript_plain self @
        (if utf8_encodable (out @ [10]) \<and> print_ok then [out @ [10, 10]] else [])"
  using assms dedupe_keeps_files[of self now "text"]
  by (simp add: handle_committed_text_def Let_def)

text \<open>
  The error path on a text that cannot be encoded: the lone surrogate U+D800 leaves
  the method with \<open>UnicodeEncodeError\<close>, the index advanced, the segment file empty
  and the transcripts untouched.
\<close>

lemma handle_surrogate_example:
  "handle_committed_text (init_transcriber 960 200) 5 (py_str ''2025-01-01 12:00:00'') True
     (Some [55296]) =
   (Some UnicodeEncodeError,
    init_transcriber 960 200
      \<lparr>segment_index := 1, last_committed_text := [55296], last_committed_time := 5,
       segment_files := [1 \<mapsto> []]\<rparr>)"
  by (simp add: handle_committed_text_def dedupe_committed_text_def Let_def str_eval
      init_transcriber_def utf8_encodable_def is_surrogate_def)

text \<open>
  Claim C9.  For every object, clock reading and event text, the text returned by
  \<open>_dedupe_committed_text\<close> is empty or is \<open>current[k:].lstrip()\<close> for some
  \<open>k < len(current)\<close>, where \<open>current\<close> is the trimmed event text.  Hence, on every
  path through \<open>_handle_committed_text\<close>, also those that end with an exception, each
  segment file that exists afterwards was there before with the same content, or is
  empty (the text could not be encoded), or holds such a left-trimmed tail of the
  trimmed event text and a newline; and the plain transcript is as before or has one
  more entry, such a tail and two newlines.
\<close>

theorem segment_text_is_trimmed_tail:
  "(fst (dedupe_committed_text self now text) = [] \<or>
    (\<exists>k<length (strip (or_empty text)).
       fst (dedupe_committed_text self now text) =
         lstrip (slice_from (strip (or_empty text)) k))) \<and>
   (\<forall>i content.
      segment_files (snd (handle_committed_text self now stamp print_ok text)) i = Some content \<longrightarrow>
      segment_files self i = Some content \<or> content = [] \<or>
      (\<exists>k<length (strip (or_empty text)).
         content = lstrip (slice_from (strip (or_empty text)) k) @ [10])) \<and>
   (transcript_plain (snd (handle_committed_text self now stamp print_ok text)) =
      transcript_plain self \<or>
    (\<exists>k<length (strip (or_empty text)).
       transcript_plain (snd (handle_committed_text self now stamp print_ok text)) =
         transcript_plain self @ [lstrip (slice_from (strip (or_empty text)) k) @ [10, 10]]))"
proof -
  obtain out self1 where d: "dedupe_committed_text self now text = (out, self1)"
    by (cases "dedupe_committed_text self now text")
  have form: "out = [] \<or>
      (\<exists>k<length (strip (or_empty text)). out = lstrip (slice_from (strip (or_empty text)) k))"
    using dedupe_fst_form[of self now "text"] d by simp
  have keep: "segment_files self1 = segment_files self"
      "transcript_plain self1 = transcript_plain self"
    using dedupe_keeps_files[of self now "text"] d by simp_all
  show ?thesis
  proof (cases "out = []")
    case True
    then have "handle_committed_text self now stamp print_ok text = (None, self1)"
      using handle_no_segment[of self now "text" stamp print_ok] d by simp
    then show ?thesis using form d keep by simp
  next
    case False
    then obtain k where k: "k < length (strip (or_empty text))"
        "out = lstrip (slice_from (strip (or_empty text)) k)"
      using form by blast
    note h = handle_segment[OF d False, of stamp print_ok]
    have files: "segment_files self i = Some content \<or> content = [] \<or>
        (\<exists>k<length (strip (or_empty text)).
           content = lstrip (slice_from (strip (or_empty text)) k) @ [10])"
      if "segment_files (snd (handle_committed_text self now stamp print_ok text)) i = Some content"
      for i content
      using that h k by (auto split: if_splits)
    have plain: "transcript_plain (snd (handle_committed_text self now stamp print_ok text)) =
          transcript_plain self \<or>
        (\<exists>k<length (strip (or_empty text)).
           transcript_plain (snd (handle_committed_text self now stamp print_ok text)) =
             transcript_plain self @ [lstrip (slice_from (strip (or_empty text)) k) @ [10, 10]])"
      using h k by (auto split: if_splits)
    show ?thesis using form d files plain by simp
  qed
qed

theorem segment_text_is_trimmed_tail_witness:
  "fst (dedupe_committed_text
          (init_transcriber 960 200
             \<lparr>last_committed_text := py_str ''hello'', last_committed_time := 100\<rparr>)
          103 (Some (py_str '' hello  world ''))) = py_str ''world'' \<and>
   lstrip (slice_from (strip (or_empty (Some (py_str '' hello  world '')))) 5) = py_str ''world'' \<and>
   segment_files (snd (handle_committed_text
          (init_transcriber 960 200
             \<lparr>last_committed_text := py_str ''hello'', last_committed_time := 100\<rparr>)
          103 (py_str ''2025-01-01 12:00:00'') True (Some (py_str '' hello  world '')))) 1 =
     Some (py_str ''world'' @ [10]) \<and>
   transcript_plain (snd (handle_committed_text
          (init_transcriber 960 200
             \<lparr>last_committed_text := py_str ''hello'', last_committed_time := 100\<rparr>)
          103 (py_str ''2025-01-01 12:00:00'') True (Some (py_str '' hello  world '')))) =
     [py_str ''world'' @ [10, 10]]"
proof -
  let ?s = "init_transcriber 960 200
             \<lparr>last_committed_text := py_str ''hello'', last_committed_time := 100\<rparr>"
  let ?t = "Some (py_str '' hello  world '')"
  have e: "dedupe_committed_text ?s 103 ?t =
      (py_str ''world'', ?s\<lparr>last_committed_text := py_str ''hello  world'',
          last_committed_time := 103\<rparr>)"
    by (simp add: dedupe_committed_text_def Let_def str_eval init_transcriber_def
        float_sub_gt_8_iff)
  have f: "lstrip (slice_from (strip (or_empty ?t)) 5) = py_str ''world''"
    by (simp add: str_eval)
  have ne: "py_str ''world'' \<noteq> []" by (simp add: py_str_def)
  have enc: "utf8_encodable (py_str ''world'' @ [10])"
    by (simp add: py_str_def utf8_encodable_def is_surrogate_def)
  have g: "segment_files (snd (handle_committed_text ?s 103 (py_str ''2025-01-01 12:00:00'')
        True ?t)) 1 = Some (py_str ''world'' @ [10]) \<and>
      transcript_plain (snd (handle_committed_text ?s 103 (py_str ''2025-01-01 12:00:00'')
        True ?t)) = [py_str ''world'' @ [10, 10]]"
    using handle_segment[OF e ne, of "py_str ''2025-01-01 12:00:00''" True] enc
    by (simp add: init_transcriber_def)
  show ?thesis
    using segment_text_is_trimmed_tail[of ?s 103 ?t "py_str ''2025-01-01 12:00:00''" True] e f g
    by simp
qed

section \<open>Duplicated commits in the two programs\<close>

text \<open>
  Claim C2 says that a committed event whose trimmed text equals the previously
  committed text yields no committed message and no segment, in every session state.
  The bridge of the web server has no deduplication: two committed events with the text
  \<open>"hello"\<close> give two segments and two committed messages.  The command-line
  transcriber deduplicates only within 8 seconds: the same text 9 seconds after the
  remembered commit is written as a new segment.
\<close>

theorem duplicate_commit_counterexample:
  "map seg_text (segments (elevenlabs_to_browser
       \<lparr>segments = [], relay_ws = \<lparr>ws_connected = True, ws_sent = [], ws_closed = False\<rparr>,
        el_closed = False\<rparr>
       [(Committed (Some (py_str ''hello'')), py_str ''2025-01-01T12:00:01''),
        (Committed (Some (py_str ''hello'')), py_str ''2025-01-01T12:00:02'')])) =
     [py_str ''hello'', py_str ''hello''] \<and>
   ws_sent (relay_ws (elevenlabs_to_browser
       \<lparr>segments = [], relay_ws = \<lparr>ws_connected = True, ws_sent = [], ws_closed = False\<rparr>,
        el_closed = False\<rparr>
       [(Committed (Some (py_str ''hello'')), py_str ''2025-01-01T12:00:01''),
        (Committed (Some (py_str ''hello'')), py_str ''2025-01-01T12:00:02'')])) =
     [Committed_msg (py_str ''hello''), Committed_msg (py_str ''hello'')] \<and>
   transcript_plain (snd (handle_committed_text
       (init_transcriber 960 200
          \<lparr>last_committed_text := py_str ''hello'', last_committed_time := 100\<rparr>)
       109 (py_str ''2025-01-01 12:00:09'') True (Some (py_str ''hello'')))) =
     [py_str ''hello'' @ [10, 10]]"
  by (simp add: relay_event_def send_json_def handle_committed_text_def
      dedupe_committed_text_def Let_def str_eval init_transcriber_def float_sub_gt_8_iff
      utf8_encodable_def is_surrogate_def)

lemma handle_duplicate:
  assumes "last_committed_text self \<noteq> []"
    and "strip (or_empty text) = last_committed_text self"
    and "now - last_committed_time self \<le> 8"
  shows "handle_committed_text self now stamp print_ok text = (None, self)"
  using assms
  by (simp add: handle_committed_text_def dedupe_committed_text_def Let_def float_sub_gt_8_iff)

lemma relay_committed:
  assumes "strip (or_empty d) \<noteq> []"
  shows "segments (snd (relay_event r stamp (Committed d))) =
      segments r @ [\<lparr>seg_text = strip (or_empty d), seg_timestamp = stamp\<rparr>] \<and>
    (ws_connected (relay_ws r) \<and> \<not> ws_closed (relay_ws r) \<and>
     utf8_encodable (strip (or_empty d)) \<longrightarrow>
       fst (relay_event r stamp (Committed d)) \<and>
       ws_sent (relay_ws (snd (relay_event r stamp (Committed d)))) =
         ws_sent (relay_ws r) @ [Committed_msg (strip (or_empty d))])"
  using assms by (simp add: relay_event_def send_json_def Let_def)

text \<open>
  Claim C2, as the code has it.  In the command-line transcriber, a committed event
  whose trimmed text equals the non-empty remembered text, handled no more than 8
  seconds after the remembered time, leaves the object as it was and raises nothing:
  no segment file, no transcript entry.  In the web server's bridge, one turn of the
  relay loop on a committed event with a non-empty trimmed text appends one segment with
  that text, whatever was committed before; if the browser's socket is open and the
  text can be encoded as UTF-8, it also sends one committed message with that text and
  the loop goes on.  (The loop handles the queued events in order until a close event
  or a failed send.)
\<close>

theorem duplicate_commit_amended:
  "(\<forall>self now stamp print_ok text.
      last_committed_text self \<noteq> [] \<and> strip (or_empty text) = last_committed_text self \<and>
      now - last_committed_time self \<le> 8 \<longrightarrow>
      handle_committed_text self now stamp print_ok text = (None, self)) \<and>
   (\<forall>r stamp d.
      strip (or_empty d) \<noteq> [] \<longrightarrow>
      segments (snd (relay_event r stamp (Committed d))) =
        segments r @ [\<lparr>seg_text = strip (or_empty d), seg_timestamp = stamp\<rparr>] \<and>
      (ws_connected (relay_ws r) \<and> \<not> ws_closed (relay_ws r) \<and>
       utf8_encodable (strip (or_empty d)) \<longrightarrow>
         fst (relay_event r stamp (Committed d)) \<and>
         ws_sent (relay_ws (snd (relay_event r stamp (Committed d)))) =
           ws_sent (relay_ws r) @ [Committed_msg (strip (or_empty d))]))"
  using handle_duplicate relay_committed by blast

theorem duplicate_commit_amended_witness:
  "last_committed_text (init_transcriber 960 200
       \<lparr>last_committed_text := py_str ''hello'', last_committed_time := 100\<rparr>) \<noteq> [] \<and>
   strip (or_empty (Some (py_str ''hello''))) =
     last_committed_text (init_transcriber 960 200
       \<lparr>last_committed_text := py_str ''hello'', last_committed_time := 100\<rparr>) \<and>
   (104::real) - last_committed_time (init_transcriber 960 200
       \<lparr>last_committed_text := py_str ''hello'', last_committed_time := 100\<rparr>) \<le> 8 \<and>
   handle_committed_text
     (init_transcriber 960 200\<lparr>last_committed_text := py_str ''hello'', last_committed_time := 100\<rparr>)
     104 (py_str ''2025-01-01 12:00:04'') True (Some (py_str ''hello'')) =
   (None,
    init_transcriber 960 200\<lparr>last_committed_text := py_str ''hello'', last_committed_time := 100\<rparr>) \<and>
   strip (or_empty (Some (py_str ''hello''))) \<noteq> [] \<and>
   utf8_encodable (strip (or_empty (Some (py_str ''hello'')))) \<and>
   segments (snd (relay_event
       \<lparr>segments = [\<lparr>seg_text = py_str ''hello'', seg_timestamp = py_str ''2025-01-01T12:00:01''\<rparr>],
        relay_ws = \<lparr>ws_connected = True, ws_sent = [Committed_msg (py_str ''hello'')],
                    ws_closed = False\<rparr>,
        el_closed = False\<rparr>
       (py_str ''2025-01-01T12:00:02'') (Committed (Some (py_str ''hello''))))) =
     [\<lparr>seg_text = py_str ''hello'', seg_timestamp = py_str ''2025-01-01T12:00:01''\<rparr>,
      \<lparr>seg_text = py_str ''hello'', seg_timestamp = py_str ''2025-01-01T12:00:02''\<rparr>] \<and>
   ws_sent (relay_ws (snd (relay_event
       \<lparr>segments = [\<lparr>seg_text = py_str ''hello'', seg_timestamp = py_str ''2025-01-01T12:00:01''\<rparr>],
        relay_ws = \<lparr>ws_connected = True, ws_sent = [Committed_msg (py_str ''hello'')],
                    ws_closed = False\<rparr>,
        el_closed = False\<rparr>
       (py_str ''2025-01-01T12:00:02'') (Committed (Some (py_str ''hello'')))))) =
     [Committed_msg (py_str ''hello''), Committed_msg (py_str ''hello'')]"
proof -
  let ?s = "init_transcriber 960 200
       \<lparr>last_committed_text := py_str ''hello'', last_committed_time := 100\<rparr>"
  let ?r = "\<lparr>segments = [\<lparr>seg_text = py_str ''hello'', seg_timestamp = py_str ''2025-01-01T12:00:01''\<rparr>],
        relay_ws = \<lparr>ws_connected = True, ws_sent = [Committed_msg (py_str ''hello'')],
                    ws_closed = False\<rparr>,
        el_closed = False\<rparr>"
  let ?d = "Some (py_str ''hello'')"
  have e: "strip (or_empty ?d) = py_str ''hello''" by (simp add: str_eval)
  have h1: "last_committed_text ?s \<noteq> []" by (simp add: py_str_def)
  have h2: "strip (or_empty ?d) = last_committed_text ?s" by (simp add: e)
  have h3: "(104::real) - last_committed_time ?s \<le> 8" by simp
  have h4: "strip (or_empty ?d) \<noteq> []" by (simp add: e) (simp add: py_str_def)
  have h5: "utf8_encodable (strip (or_empty ?d))"
    by (simp add: e) (simp add: py_str_def utf8_encodable_def is_surrogate_def)
  have a: "handle_committed_text ?s 104 (py_str ''2025-01-01 12:00:04'') True ?d = (None, ?s)"
    by (rule duplicate_commit_amended[THEN conjunct1, rule_format]) (use h1 h2 h3 in blast)
  have b: "segments (snd (relay_event ?r (py_str ''2025-01-01T12:00:02'') (Committed ?d))) =
        segments ?r @ [\<lparr>seg_text = strip (or_empty ?d), seg_timestamp = py_str ''2025-01-01T12:00:02''\<rparr>] \<and>
      (ws_connected (relay_ws ?r) \<and> \<not> ws_closed (relay_ws ?r) \<and>
       utf8_encodable (strip (or_empty ?d)) \<longrightarrow>
         fst (relay_event ?r (py_str ''2025-01-01T12:00:02'') (Committed ?d)) \<and>
         ws_sent (relay_ws (snd (relay_event ?r (py_str ''2025-01-01T12:00:02'') (Committed ?d)))) =
           ws_sent (relay_ws ?r) @ [Committed_msg (strip (or_empty ?d))])"
    by (rule duplicate_commit_amended[THEN conjunct2, rule_format]) (rule h4)
  show ?thesis using h1 h2 h3 h4 h5 a b by (simp add: e)
qed

section \<open>Properties of the audio callback\<close>

lemma put_nowait_cases:
  "put_nowait q x = Inl Full \<or> put_nowait q x = Inr (q\<lparr>q_items := q_items q @ [x]\<rparr>)"
  by (simp add: put_nowait_def)

lemma enqueue_never_raises: "\<exists>q1. audio_callback_enqueue q x = Inr q1"
proof (cases "put_nowait q x")
  case (Inr q1)
  then show ?thesis by (simp add: audio_callback_enqueue_def)
next
  case (Inl e)
  then have f: "put_nowait q x = Inl Full" using put_nowait_cases[of q x] by auto
  obtain q1 where g: "(case get_nowait q of Inr (oldest, q1) \<Rightarrow> Inr q1
                 | Inl Empty \<Rightarrow> Inr q | Inl Full \<Rightarrow> (Inl Full :: queue_exc + audio_queue)) = Inr q1"
    by (cases "q_items q") (simp_all add: get_nowait_def)
  show ?thesis
    using put_nowait_cases[of q1 x] f g
    by (auto simp: audio_callback_enqueue_def)
qed

lemma enqueue_full:
  assumes "0 < maxsize q" and "int (length (q_items q)) = maxsize q"
  shows "audio_callback_enqueue q x = Inr (q\<lparr>q_items := tl (q_items q) @ [x]\<rparr>)"
proof -
  obtain y ys where c: "q_items q = y # ys" using assms by (cases "q_items q") auto
  show ?thesis
    using assms c
    by (simp add: audio_callback_enqueue_def put_nowait_def get_nowait_def)
qed

lemma enqueue_four:
  "enqueue_all \<lparr>maxsize = 3, q_items = []\<rparr> [a, b, c, d] = Inr \<lparr>maxsize = 3, q_items = [b, c, d]\<rparr>"
  by (simp add: audio_callback_enqueue_def put_nowait_def get_nowait_def)

text \<open>
  Claim C8.  When the callback enqueues a chunk into a full queue of positive capacity,
  the oldest entry is removed and the chunk is appended behind the others; the enqueue
  never leaves the callback with an exception.  Enqueuing \<open>a, b, c, d\<close> in this order
  into an empty queue of capacity 3 leaves \<open>b, c, d\<close>.
\<close>

theorem full_queue_drops_oldest:
  "(\<forall>q x. 0 < maxsize q \<and> int (length (q_items q)) = maxsize q \<longrightarrow>
      audio_callback_enqueue q x = Inr (q\<lparr>q_items := tl (q_items q) @ [x]\<rparr>)) \<and>
   (\<forall>q x. \<exists>q1. audio_callback_enqueue q x = Inr q1) \<and>
   (\<forall>a b c d.
      enqueue_all \<lparr>maxsize = 3, q_items = []\<rparr> [a, b, c, d] =
        Inr \<lparr>maxsize = 3, q_items = [b, c, d]\<rparr>)"
  using enqueue_full enqueue_never_raises enqueue_four by blast

theorem full_queue_drops_oldest_witness:
  "0 < maxsize \<lparr>maxsize = 3, q_items = [[1, 0], [2, 0], [3, 0]]\<rparr> \<and>
   int (length (q_items \<lparr>maxsize = 3, q_items = [[1, 0], [2, 0], [3, 0]]\<rparr>)) =
     maxsize \<lparr>maxsize = 3, q_items = [[1, 0], [2, 0], [3, 0]]\<rparr> \<and>
   audio_callback_enqueue \<lparr>maxsize = 3, q_items = [[1, 0], [2, 0], [3, 0]]\<rparr> [4, 0] =
     Inr \<lparr>maxsize = 3, q_items = [[2, 0], [3, 0], [4, 0]]\<rparr>"
proof -
  let ?q = "\<lparr>maxsize = 3, q_items = [[1, 0], [2, 0], [3, 0 :: byte]]\<rparr>"
  have h: "0 < maxsize ?q \<and> int (length (q_items ?q)) = maxsize ?q" by simp
  have "audio_callback_enqueue ?q [4, 0] = Inr (?q\<lparr>q_items := tl (q_items ?q) @ [[4, 0]]\<rparr>)"
    by (rule full_queue_drops_oldest[THEN conjunct1, rule_format]) (rule h)
  then show ?thesis using h by simp
qed

lemma length_tobytes: "length (tobytes frame) = 2 * length frame"
  by (induction frame) (simp_all add: tobytes_def)

lemma callback_frame:
  assumes "frames = length indata"
  shows "(if frames \<noteq> n then
            take (min (length indata) n) indata @
            drop (min (length indata) n) (replicate n (0 :: 16 word))
          else indata) = take n indata @ replicate (n - length indata) 0"
  using assms by (auto simp: min_def)

lemma tobytes_Nil: "tobytes [] = []"
  by (simp add: tobytes_def)

lemma tobytes_Cons: "tobytes (w # rest) = ucast w # ucast (drop_bit 8 w) # tobytes rest"
  by (simp add: tobytes_def)

text \<open>
  Claim C10.  The input stream hands the callback a block and its number of frames,
  \<open>frames = len(indata)\<close>.  The chunk that the callback writes to \<open>stream.wav\<close> and
  offers to the queue is the block cut to its first \<open>chunk_samples\<close> samples and filled
  up with zeros to \<open>chunk_samples\<close> samples: it has exactly \<open>chunk_samples\<close> samples
  (twice as many bytes), and exactly one chunk is written and offered per call.
\<close>

theorem callback_chunk_has_chunk_size:
  assumes "frames = length indata"
    and "chunk = take (chunk_samples self) indata @ replicate (chunk_samples self - length indata) 0"
  shows "length chunk = chunk_samples self \<and>
    length (tobytes chunk) = 2 * chunk_samples self \<and>
    audio_callback self indata frames =
      (case audio_callback_enqueue (audio_queue self) (tobytes chunk) of
         Inl e \<Rightarrow> Inl e
       | Inr q \<Rightarrow> Inr (self\<lparr>stream_wav := stream_wav self @ tobytes chunk, audio_queue := q\<rparr>))"
proof -
  have l: "length chunk = chunk_samples self" using assms(2) by auto
  have c: "audio_callback self indata frames =
      (case audio_callback_enqueue (audio_queue self) (tobytes chunk) of
         Inl e \<Rightarrow> Inl e
       | Inr q \<Rightarrow> Inr (self\<lparr>stream_wav := stream_wav self @ tobytes chunk, audio_queue := q\<rparr>))"
    unfolding audio_callback_def Let_def
      callback_frame[OF assms(1), of "chunk_samples self"] assms(2)[symmetric]
    by simp
  show ?thesis using l c by (simp add: length_tobytes)
qed

theorem callback_chunk_has_chunk_size_witness:
  "(6::nat) = length [258, 2, 3, 4, 5, 6 :: 16 word] \<and>
   [258, 2, 3, 4 :: 16 word] =
     take (chunk_samples (init_transcriber 4 3)) [258, 2, 3, 4, 5, 6] @
     replicate (chunk_samples (init_transcriber 4 3) - length [258, 2, 3, 4, 5, 6 :: 16 word]) 0 \<and>
   tobytes [258, 2, 3, 4] = [2, 1, 2, 0, 3, 0, 4, 0] \<and>
   audio_callback (init_transcriber 4 3) [258, 2, 3, 4, 5, 6] 6 =
     Inr (init_transcriber 4 3
            \<lparr>stream_wav := [2, 1, 2, 0, 3, 0, 4, 0],
             audio_queue := \<lparr>maxsize = 3, q_items = [[2, 1, 2, 0, 3, 0, 4, 0]]\<rparr>\<rparr>)"
proof -
  have h1: "(6::nat) = length [258, 2, 3, 4, 5, 6 :: 16 word]" by simp
  have h2: "[258, 2, 3, 4 :: 16 word] =
     take (chunk_samples (init_transcriber 4 3)) [258, 2, 3, 4, 5, 6] @
     replicate (chunk_samples (init_transcriber 4 3) - length [258, 2, 3, 4, 5, 6 :: 16 word]) 0"
    by (simp add: init_transcriber_def)
  have b: "tobytes [258, 2, 3, 4] = [2, 1, 2, 0, 3, 0, 4, 0]"
    by (simp add: tobytes_Nil tobytes_Cons drop_bit_eq_div)
  have r: "audio_callback (init_transcriber 4 3) [258, 2, 3, 4, 5, 6] 6 =
      (case audio_callback_enqueue (audio_queue (init_transcriber 4 3)) (tobytes [258, 2, 3, 4]) of
         Inl e \<Rightarrow> Inl e
       | Inr q \<Rightarrow> Inr (init_transcriber 4 3
           \<lparr>stream_wav := stream_wav (init_transcriber 4 3) @ tobytes [258, 2, 3, 4],
            audio_queue := q\<rparr>))"
    using callback_chunk_has_chunk_size[OF h1 h2] by blast
  have r2: "audio_callback (init_transcriber 4 3) [258, 2, 3, 4, 5, 6] 6 =
     Inr (init_transcriber 4 3
            \<lparr>stream_wav := [2, 1, 2, 0, 3, 0, 4, 0],
             audio_queue := \<lparr>maxsize = 3, q_items = [[2, 1, 2, 0, 3, 0, 4, 0]]\<rparr>\<rparr>)"
    unfolding r b by (simp add: init_transcriber_def audio_callback_enqueue_def put_nowait_def)
  show ?thesis using h1 h2 b r2 by blast
qed

section \<open>Failure of the upstream connection\<close>

text \<open>
  Claim C1 says that after a well-formed start request, if \<open>realtime.connect\<close>
  raises, an error event is sent to the browser and no metadata record with status
  \<open>"recording"\<close> is left.  The handler has written the meeting folder and its
  metadata before it connects, and its \<open>return\<close> on the failure comes before the
  \<open>try ... finally\<close> that sets the status to \<open>"completed"\<close>: the error event is sent,
  and the record with status \<open>"recording"\<close> stays.
\<close>

theorem connect_failure_leaves_recording:
  "ws_transcribe
     \<lparr>first_message = Json \<lparr>msg_type = Some (py_str ''start''),
                             msg_title = Some (py_str ''Standup''), msg_language = None\<rparr>,
      meeting_id = py_str ''20250101_120000_ab12cd'',
      created_at = py_str ''2025-01-01T12:00:00'',
      connect_raises = Some (py_str ''timed out''),
      relayed = [], duration = 0\<rparr>
     \<lparr>data_dir = Map.empty,
      ws = \<lparr>ws_connected = True, ws_sent = [], ws_closed = False\<rparr>\<rparr> =
   (Returned,
    \<lparr>data_dir =
       [py_str ''20250101_120000_ab12cd'' \<mapsto>
          \<lparr>metadata_json =
             Some \<lparr>md_title = py_str ''Standup'', md_created_at = py_str ''2025-01-01T12:00:00'',
                   md_status = py_str ''recording'', md_duration = 0, md_segment_count = None\<rparr>,
           transcript_json = None\<rparr>],
     ws = \<lparr>ws_connected = True,
            ws_sent = [Session_started (py_str ''20250101_120000_ab12cd''),
                       Error_msg (py_str ''ElevenLabs connection failed: timed out'')],
            ws_closed = True\<rparr>\<rparr>)"
  by (simp add: ws_transcribe_def Let_def mkdir_def write_metadata_def send_json_def
      ws_close_def py_str_def utf8_encodable_def is_surrogate_def)

text \<open>
  The same holds for every start request and every exception of the connection,
  whatever becomes of the sends to the browser.
\<close>

lemma connect_failure_general:
  assumes "first_message env = Json start" and "msg_type start = Some (py_str ''start'')"
    and "connect_raises env = Some exc"
  shows "\<exists>m folder. data_dir (snd (ws_transcribe env srv)) (meeting_id env) = Some folder \<and>
     metadata_json folder = Some m \<and> md_status m = py_str ''recording''"
  using assms
  by (simp add: ws_transcribe_def Let_def mkdir_def write_metadata_def
      split: option.splits)

end
